theory Spec2Isabelle
  imports Main "HOL-Library.Sublist"
begin

section \<open>JavaScript strings\<close>

text \<open>
  A string of the program is a \<^typ>\<open>string\<close>: the list of its bytes in UTF-8 (an
  unpaired surrogate encoded like any other code point), so that an ASCII character is
  one byte below 128 and every other character is a run of bytes from 128 on. Every
  character the program compares against (digits, \<open>+\<close>, \<open>/\<close>, the letters of the
  farewell phrases) is ASCII, so filtering, prefix tests, search and equality on the
  bytes give what they give on the characters.

  \<open>toLowerCase\<close> on a string of ASCII characters lowers \<open>A\<close>..\<open>Z\<close> and nothing else.
  On a string that holds other characters the result is the engine's, by the Unicode
  case mapping; that mapping is not part of the repository and is the parameter
  \<open>unicodeLower\<close> wherever a string is lowered. \<open>trim\<close> removes, at both ends, the
  white space and line terminators of ECMAScript, listed in \<open>whiteSpace\<close> by their
  bytes.
\<close>

definition isDigit :: "char \<Rightarrow> bool" where
  \<comment> \<open>the regular expression class \<open>\\d\<close>\<close>
  "isDigit c = (c \<in> set ''0123456789'')"

definition startsWith :: "string \<Rightarrow> string \<Rightarrow> bool" where
  "startsWith s p = (take (length p) s = p)"

fun includesStr :: "string \<Rightarrow> string \<Rightarrow> bool" where
  "includesStr [] p = (p = [])"
| "includesStr (c # s) p = (startsWith (c # s) p \<or> includesStr s p)"

definition toLowerChar :: "char \<Rightarrow> char" where
  "toLowerChar c =
     (case map_of (zip ''ABCDEFGHIJKLMNOPQRSTUVWXYZ'' ''abcdefghijklmnopqrstuvwxyz'') c of
        None \<Rightarrow> c
      | Some d \<Rightarrow> d)"

definition isAscii :: "char \<Rightarrow> bool" where
  \<comment> \<open>a byte below 128\<close>
  "isAscii c = (\<not> digit7 c)"

definition toLowerCase :: "(string \<Rightarrow> string) \<Rightarrow> string \<Rightarrow> string" where
  "toLowerCase unicodeLower s =
     (if list_all isAscii s then map toLowerChar s else unicodeLower s)"

definition whiteSpace :: "string list" where
  \<comment> \<open>TAB, LF, VT, FF, CR, SP, U+00A0, U+1680, U+2000 to U+200A, U+2028, U+2029, U+202F,
      U+205F, U+3000, U+FEFF\<close>
  "whiteSpace =
     [[CHR 0x09], [CHR 0x0A], [CHR 0x0B], [CHR 0x0C], [CHR 0x0D], [CHR 0x20],
      [CHR 0xC2, CHR 0xA0], [CHR 0xE1, CHR 0x9A, CHR 0x80],
      [CHR 0xE2, CHR 0x80, CHR 0x80], [CHR 0xE2, CHR 0x80, CHR 0x81],
      [CHR 0xE2, CHR 0x80, CHR 0x82], [CHR 0xE2, CHR 0x80, CHR 0x83],
      [CHR 0xE2, CHR 0x80, CHR 0x84], [CHR 0xE2, CHR 0x80, CHR 0x85],
      [CHR 0xE2, CHR 0x80, CHR 0x86], [CHR 0xE2, CHR 0x80, CHR 0x87],
      [CHR 0xE2, CHR 0x80, CHR 0x88], [CHR 0xE2, CHR 0x80, CHR 0x89],
      [CHR 0xE2, CHR 0x80, CHR 0x8A], [CHR 0xE2, CHR 0x80, CHR 0xA8],
      [CHR 0xE2, CHR 0x80, CHR 0xA9], [CHR 0xE2, CHR 0x80, CHR 0xAF],
      [CHR 0xE2, CHR 0x81, CHR 0x9F], [CHR 0xE3, CHR 0x80, CHR 0x80],
      [CHR 0xEF, CHR 0xBB, CHR 0xBF]]"

function stripLeading :: "string list \<Rightarrow> string \<Rightarrow> string" where
  \<comment> \<open>remove, from the front, every leading occurrence of a member of \<open>ws\<close>\<close>
  "stripLeading ws s =
     (case find (\<lambda>w. w \<noteq> [] \<and> startsWith s w) ws of
        None \<Rightarrow> s
      | Some w \<Rightarrow> stripLeading ws (drop (length w) s))"
  by pat_completeness auto
termination
proof (relation "measure (\<lambda>(ws, s). length s)")
  show "wf (measure (\<lambda>(ws, s). length s))" by simp
next
  fix ws :: "string list" and s w :: string
  assume "find (\<lambda>w. w \<noteq> [] \<and> startsWith s w) ws = Some w"
  then have "w \<noteq> []" and "take (length w) s = w"
    by (auto simp: find_Some_iff startsWith_def)
  then have "s \<noteq> []" by auto
  with \<open>w \<noteq> []\<close> show "((ws, drop (length w) s), (ws, s)) \<in> measure (\<lambda>(ws, s). length s)"
    by simp
qed

declare stripLeading.simps [simp del]

definition trim :: "string \<Rightarrow> string" where
  "trim s = rev (stripLeading (map rev whiteSpace) (rev (stripLeading whiteSpace s)))"

definition orElse :: "string option \<Rightarrow> string \<Rightarrow> string" where
  \<comment> \<open>\<open>x || d\<close> for an optional string \<open>x\<close>: \<open>undefined\<close> and the empty string are falsy\<close>
  "orElse x d = (case x of None \<Rightarrow> d | Some s \<Rightarrow> if s = [] then d else s)"

section \<open>Caller authorization (config.ts)\<close>

definition stripPhone :: "string \<Rightarrow> string" where
  \<comment> \<open>\<open>phone.replace(/[^\\d+]/g, "")\<close>: every character that is neither a digit nor
      \<open>+\<close> is removed, wherever it stands\<close>
  "stripPhone phone = filter (\<lambda>c. isDigit c \<or> c = CHR ''+'') phone"

definition normalizePhone :: "string \<Rightarrow> string" where
  "normalizePhone phone =
     (let normalized = stripPhone phone in
      if \<not> startsWith normalized ''+'' \<and> length normalized \<ge> 10 then
        if length normalized = 10 then ''+1'' @ normalized
        else if length normalized = 11 \<and> startsWith normalized ''1'' then ''+'' @ normalized
        else normalized
      else normalized)"

definition isAllowedCaller :: "string \<Rightarrow> string list \<Rightarrow> bool" where
  "isAllowedCaller phone allowList =
     (if length allowList = 0 then True
      else (let normalized = normalizePhone phone in
            list_ex (\<lambda>allowed. normalized = normalizePhone allowed) allowList))"

text \<open>
  The specification's wording of normalisation, kept apart from the code's: only a
  leading \<open>+\<close> survives the stripping, and the two prefix rules are keyed on the
  stripped text having no \<open>+\<close>.
\<close>

definition strip_spec :: "string \<Rightarrow> string" where
  "strip_spec phone =
     (let kept = filter (\<lambda>c. isDigit c \<or> c = CHR ''+'') phone in
      if startsWith kept ''+'' then CHR ''+'' # filter isDigit kept else filter isDigit kept)"

definition normalize_spec :: "string \<Rightarrow> string" where
  "normalize_spec phone =
     (let s = strip_spec phone in
      if CHR ''+'' \<notin> set s \<and> length s = 10 then ''+1'' @ s
      else if CHR ''+'' \<notin> set s \<and> length s = 11 \<and> startsWith s ''1'' then ''+'' @ s
      else s)"

section \<open>Sessions, events and frames (websocket-server.ts)\<close>

datatype Role = User | Agent

record TranscriptEntry =
  role :: Role
  content :: string

record CallSession =
  callId :: string
  fromNumber :: "string option"
  authorized :: bool
  transcript :: "TranscriptEntry list"
  sessionKey :: string

record RetellVoiceConfig =
  enabled :: bool
  apiKey :: "string option"
  allowFrom :: "string list"
  greeting :: string
  websocket_port :: nat
  websocket_path :: string
  tailscale_mode :: string
  tailscale_path :: "string option"
  responseModel :: "string option"
  responseTimeoutMs :: nat

record ServerContext =
  config :: RetellVoiceConfig

text \<open>
  An inbound event is the parsed JSON frame, with the fields the handler reads. A field
  that is absent (\<open>undefined\<close>) is \<open>None\<close>. The fields are typed as the telephony
  protocol sends them: numbers and direction are strings, the transcript is an array of
  utterances.
\<close>

record CallDetails =
  call_direction :: "string option"
  call_from_number :: "string option"
  call_to_number :: "string option"

record Utterance =
  u_role :: "string option"
  u_content :: "string option"

record Event =
  interaction_type :: "string option"
  ev_call :: "CallDetails option"
  ev_timestamp :: "nat option"
  ev_response_id :: "nat option"
  ev_transcript :: "Utterance list option"

datatype Frame =
    ConfigFrame (auto_reconnect: bool) (call_details: bool)
  | ResponseFrame (response_id: "nat option") (frame_content: string)
      (content_complete: bool) (end_call: bool)
  | PingPongFrame (frame_timestamp: "nat option")

text \<open>
  What one run of \<open>handleMessage\<close> does: the session as it leaves it, the frames it
  sends on the socket in order, and its calls of \<open>generateAgentResponse\<close> (the session
  and the user message passed).
\<close>

record 's Outcome =
  session_after :: 's
  sent :: "Frame list"
  invoked :: "('s \<times> string) list"

definition newSession :: "string \<Rightarrow> CallSession" where
  \<comment> \<open>the session \<open>handleConnection\<close> creates\<close>
  "newSession cid =
     \<lparr>callId = cid, fromNumber = None, authorized = False, transcript = [],
      sessionKey = ''retell:'' @ cid\<rparr>"

definition connectionFrames :: "Frame list" where
  \<comment> \<open>the frame \<open>handleConnection\<close> sends before any other\<close>
  "connectionFrames = [ConfigFrame True True]"

definition emptyCall :: CallDetails where
  \<comment> \<open>\<open>event.call || {}\<close>\<close>
  "emptyCall = \<lparr>call_direction = None, call_from_number = None, call_to_number = None\<rparr>"

definition sliceLast :: "nat \<Rightarrow> 'a list \<Rightarrow> 'a list" where
  \<comment> \<open>\<open>xs.slice(-n)\<close>: the last \<open>n\<close> entries, all of them when there are fewer\<close>
  "sliceLast n xs = drop (length xs - n) xs"

definition lastUserMessage :: "Utterance list \<Rightarrow> Utterance option" where
  \<comment> \<open>\<open>userMessages[userMessages.length - 1]\<close>, \<open>undefined\<close> on the empty array\<close>
  "lastUserMessage ts =
     (let userMessages = filter (\<lambda>t. u_role t = Some ''user'') ts in
      if userMessages = [] then None else Some (last userMessages))"

definition lastUserContent :: "Utterance list \<Rightarrow> string option" where
  \<comment> \<open>\<open>lastUserMessage?.content\<close> when it is truthy\<close>
  "lastUserContent ts =
     (case lastUserMessage ts of
        None \<Rightarrow> None
      | Some t \<Rightarrow> (case u_content t of
                    None \<Rightarrow> None
                  | Some m \<Rightarrow> if m = [] then None else Some m))"

definition toEntry :: "Utterance \<Rightarrow> TranscriptEntry" where
  "toEntry t =
     \<lparr>role = (if u_role t = Some ''agent'' then Agent else User),
      content = orElse (u_content t) []\<rparr>"

definition shouldEndCall :: "(string \<Rightarrow> string) \<Rightarrow> string \<Rightarrow> bool" where
  "shouldEndCall unicodeLower response =
     (includesStr (toLowerCase unicodeLower response) ''goodbye'' \<or>
      includesStr (toLowerCase unicodeLower response) ''talk to you later'' \<or>
      includesStr (toLowerCase unicodeLower response) ''bye for now'' \<or>
      includesStr (toLowerCase unicodeLower response) ''have a good'')"

definition rejectionFrame :: Frame where
  "rejectionFrame =
     ResponseFrame (Some 0) ''Sorry, this number is not authorized. Goodbye.'' True True"

definition greetingFrame :: "ServerContext \<Rightarrow> Frame" where
  "greetingFrame c = ResponseFrame (Some 0) (greeting (config c)) True False"

definition holdingFrame :: "Event \<Rightarrow> Frame" where
  "holdingFrame event = ResponseFrame (ev_response_id event) ''One moment please...'' True False"

definition promptFrame :: "Event \<Rightarrow> Frame" where
  "promptFrame event =
     ResponseFrame (ev_response_id event) ''I'm here! What can I help you with?'' True False"

definition hiccupFrame :: "Event \<Rightarrow> Frame" where
  "hiccupFrame event =
     ResponseFrame (ev_response_id event)
       ''Sorry, I had a brief hiccup. Can you say that again?'' True False"

definition quiet :: "'s \<Rightarrow> 's Outcome" where
  \<comment> \<open>nothing sent, nothing called, the session as it was\<close>
  "quiet session = \<lparr>session_after = session, sent = [], invoked = []\<rparr>"

text \<open>
  The branch for \<open>response_required\<close> and \<open>reminder_required\<close>. Its text is the same
  in both variants of the server, so it is written once, over any extension of the
  session record. \<open>generate\<close> is \<open>generateAgentResponse\<close>: \<open>Inr\<close> the reply it resolves
  to, \<open>Inl\<close> the error it throws. \<open>unicodeLower\<close> is the engine's lowercasing of a
  string that is not all ASCII.
\<close>

definition handleTurn ::
  "(string \<Rightarrow> string) \<Rightarrow> ServerContext \<Rightarrow> ('a CallSession_scheme \<Rightarrow> string \<Rightarrow> string + string) \<Rightarrow>
   'a CallSession_scheme \<Rightarrow> Event \<Rightarrow> 'a CallSession_scheme Outcome" where
  "handleTurn unicodeLower c generate session event =
     (if \<not> authorized session \<and> length (allowFrom (config c)) > 0 then
        \<lparr>session_after = session, sent = [holdingFrame event], invoked = []\<rparr>
      else
        (let ts = (case ev_transcript event of None \<Rightarrow> [] | Some t \<Rightarrow> t) in
         case lastUserContent ts of
           None \<Rightarrow> \<lparr>session_after = session, sent = [promptFrame event], invoked = []\<rparr>
         | Some message \<Rightarrow>
             (let session' = session\<lparr>transcript := map toEntry (sliceLast 10 ts)\<rparr> in
              case generate session' message of
                Inr response \<Rightarrow>
                  \<lparr>session_after = session',
                   sent = [ResponseFrame (ev_response_id event) response True
                             (shouldEndCall unicodeLower response)],
                   invoked = [(session', message)]\<rparr>
              | Inl err \<Rightarrow>
                  \<lparr>session_after = session', sent = [hiccupFrame event],
                   invoked = [(session', message)]\<rparr>)))"

definition numberToCheck :: "CallDetails \<Rightarrow> string option" where
  \<comment> \<open>the local \<open>numberToCheck\<close> (and \<open>phoneForSession\<close>, which has the same text) of
      \<open>handleMessage\<close>, with \<open>direction = call.direction || "inbound"\<close>\<close>
  "numberToCheck call =
     (let direction = orElse (call_direction call) ''inbound'';
          fromNumber = call_from_number call;
          toNumber = call_to_number call
      in if direction = ''outbound'' then toNumber else fromNumber)"

definition handleMessage ::
  "(string \<Rightarrow> string) \<Rightarrow> ServerContext option \<Rightarrow> (CallSession \<Rightarrow> string \<Rightarrow> string + string) \<Rightarrow>
   CallSession \<Rightarrow> Event \<Rightarrow> CallSession Outcome" where
  "handleMessage unicodeLower ctx generate session event =
     (case ctx of
        None \<Rightarrow> quiet session
      | Some c \<Rightarrow>
          if interaction_type event = Some ''call_details'' then
            (let call = (case ev_call event of None \<Rightarrow> emptyCall | Some d \<Rightarrow> d);
                 phoneForSession = numberToCheck call
             in if \<not> isAllowedCaller (orElse (numberToCheck call) []) (allowFrom (config c)) then
                  \<lparr>session_after = session, sent = [rejectionFrame], invoked = []\<rparr>
                else
                  (let s1 = session\<lparr>fromNumber := phoneForSession\<rparr>;
                       normalizedPhone = normalizePhone (orElse phoneForSession (callId s1));
                       s2 = s1\<lparr>sessionKey := ''retell:'' @ normalizedPhone\<rparr>;
                       s3 = s2\<lparr>authorized := True\<rparr>
                   in \<lparr>session_after = s3, sent = [greetingFrame c], invoked = []\<rparr>))
          else if interaction_type event = Some ''ping_pong'' then
            \<lparr>session_after = session, sent = [PingPongFrame (ev_timestamp event)], invoked = []\<rparr>
          else if interaction_type event = Some ''response_required''
                  \<or> interaction_type event = Some ''reminder_required'' then
            handleTurn unicodeLower c generate session event
          else quiet session)"

definition run ::
  "(string \<Rightarrow> string) \<Rightarrow> ServerContext option \<Rightarrow> (CallSession \<Rightarrow> string \<Rightarrow> string + string) \<Rightarrow>
   CallSession \<Rightarrow> Event list \<Rightarrow> CallSession" where
  \<comment> \<open>the session after the events of one connection, handled in arrival order\<close>
  "run unicodeLower ctx generate session events =
     foldl (\<lambda>s e. session_after (handleMessage unicodeLower ctx generate s e)) session events"

section \<open>The embedded-agent variant of the server\<close>

text \<open>
  The repository holds a second \<open>websocket-server\<close>, which runs the agent in process.
  Its session has one more field, and its \<open>call_details\<close> branch reads only
  \<open>call.from_number\<close>, stored in the session before the allowlist is consulted.
\<close>

record EmbeddedCallSession = CallSession +
  sessionId :: string

definition newSession_embedded :: "string \<Rightarrow> string \<Rightarrow> EmbeddedCallSession" where
  "newSession_embedded cid uuid =
     \<lparr>callId = cid, fromNumber = None, authorized = False, transcript = [],
      sessionKey = ''retell:'' @ cid, sessionId = uuid\<rparr>"

definition handleMessage_embedded ::
  "(string \<Rightarrow> string) \<Rightarrow> ServerContext option \<Rightarrow> (EmbeddedCallSession \<Rightarrow> string \<Rightarrow> string + string) \<Rightarrow>
   EmbeddedCallSession \<Rightarrow> Event \<Rightarrow> EmbeddedCallSession Outcome" where
  "handleMessage_embedded unicodeLower ctx generate session event =
     (case ctx of
        None \<Rightarrow> quiet session
      | Some c \<Rightarrow>
          if interaction_type event = Some ''call_details'' then
            (let call = (case ev_call event of None \<Rightarrow> emptyCall | Some d \<Rightarrow> d);
                 s1 = session\<lparr>fromNumber := call_from_number call\<rparr>
             in if \<not> isAllowedCaller (orElse (fromNumber s1) []) (allowFrom (config c)) then
                  \<lparr>session_after = s1, sent = [rejectionFrame], invoked = []\<rparr>
                else
                  (let normalizedPhone = normalizePhone (orElse (fromNumber s1) (callId s1));
                       s2 = s1\<lparr>sessionKey := ''retell:'' @ normalizedPhone\<rparr>;
                       s3 = s2\<lparr>authorized := True\<rparr>
                   in \<lparr>session_after = s3, sent = [greetingFrame c], invoked = []\<rparr>))
          else if interaction_type event = Some ''ping_pong'' then
            \<lparr>session_after = session, sent = [PingPongFrame (ev_timestamp event)], invoked = []\<rparr>
          else if interaction_type event = Some ''response_required''
                  \<or> interaction_type event = Some ''reminder_required'' then
            handleTurn unicodeLower c generate session event
          else quiet session)"

definition run_embedded ::
  "(string \<Rightarrow> string) \<Rightarrow> ServerContext option \<Rightarrow> (EmbeddedCallSession \<Rightarrow> string \<Rightarrow> string + string) \<Rightarrow>
   EmbeddedCallSession \<Rightarrow> Event list \<Rightarrow> EmbeddedCallSession" where
  "run_embedded unicodeLower ctx generate session events =
     foldl (\<lambda>s e. session_after (handleMessage_embedded unicodeLower ctx generate s e))
       session events"

text \<open>
  Model resolution in the embedded variant's \<open>generateAgentResponse\<close>. The two defaults
  come from the host application and are parameters here. \<open>indexOf\<close> is \<open>None\<close> where
  JavaScript returns \<open>-1\<close>.
\<close>

definition indexOf :: "string \<Rightarrow> char \<Rightarrow> nat option" where
  "indexOf s c = (if c \<in> set s then Some (length (takeWhile (\<lambda>x. x \<noteq> c) s)) else None)"

definition resolveModel :: "string \<Rightarrow> string \<Rightarrow> string option \<Rightarrow> string \<times> string" where
  "resolveModel DEFAULT_PROVIDER DEFAULT_MODEL configured =
     (let modelRef = orElse configured (DEFAULT_PROVIDER @ ''/'' @ DEFAULT_MODEL);
          slashIndex = indexOf modelRef CHR ''/'';
          provider = (case slashIndex of None \<Rightarrow> DEFAULT_PROVIDER | Some i \<Rightarrow> take i modelRef);
          model = (case slashIndex of None \<Rightarrow> modelRef | Some i \<Rightarrow> drop (i + 1) modelRef)
      in (provider, model))"

section \<open>The gateway client (gateway-client.ts)\<close>

text \<open>
  The part of \<open>GatewayClient\<close> that correlates a chat with its streamed reply. A promise
  that \<open>chat\<close> creates is a cell of \<open>promises\<close>, \<open>None\<close> while it is pending; settling
  a settled promise changes nothing, as in JavaScript. A timer that \<open>chat\<close> sets is a
  cell of \<open>timers\<close> holding what its callback closes over, \<open>None\<close> once it is cleared or
  has fired. The entry of \<open>pendingChats\<close> holds the promise (for its \<open>resolve\<close> and
  \<open>reject\<close>), the timer handle and the chunks.
\<close>

record ChatResponse =
  cr_text :: string
  cr_error :: "bool option"
  cr_aborted :: "bool option"

datatype Settled = Fulfilled ChatResponse | Rejected string

record PendingChat =
  pc_promise :: nat
  pc_timeout :: nat
  pc_chunks :: "string list"

record Timer =
  tm_runId :: string
  tm_promise :: nat
  tm_delay :: nat

record GatewayClient =
  connected :: bool
  pendingChats :: "string \<rightharpoonup> PendingChat"
  promises :: "Settled option list"
  timers :: "Timer option list"

record AgentPayload =
  runId :: "string option"
  stream :: "string option"
  data_text :: "string option"
  data_phase :: "string option"

record ChatOpts =
  o_sessionKey :: string
  o_message :: string
  o_systemContext :: "string option"
  o_timeoutMs :: "nat option"

definition newGatewayClient :: GatewayClient where
  "newGatewayClient =
     \<lparr>connected = False, pendingChats = Map.empty, promises = [], timers = []\<rparr>"

definition resolvePromise :: "nat \<Rightarrow> ChatResponse \<Rightarrow> GatewayClient \<Rightarrow> GatewayClient" where
  "resolvePromise p v g =
     (if p < length (promises g) \<and> promises g ! p = None
      then g\<lparr>promises := (promises g)[p := Some (Fulfilled v)]\<rparr>
      else g)"

definition clearTimeout :: "nat \<Rightarrow> GatewayClient \<Rightarrow> GatewayClient" where
  "clearTimeout t g = g\<lparr>timers := (timers g)[t := None]\<rparr>"

definition deletePending :: "string \<Rightarrow> GatewayClient \<Rightarrow> GatewayClient" where
  \<comment> \<open>\<open>this.pendingChats.delete(runId)\<close>\<close>
  "deletePending r g = g\<lparr>pendingChats := (pendingChats g)(r := None)\<rparr>"

definition isFinalPhase :: "string \<Rightarrow> bool" where
  "isFinalPhase phase =
     (phase = ''end'' \<or> phase = ''done'' \<or> phase = ''error'' \<or> phase = ''aborted'')"

definition completion :: "string \<Rightarrow> string \<Rightarrow> ChatResponse" where
  \<comment> \<open>the value the lifecycle branch resolves with, from the phase and the trimmed text\<close>
  "completion phase txt =
     (if phase = ''error'' then
        \<lparr>cr_text = (if txt = [] then ''Sorry, something went wrong.'' else txt),
         cr_error = Some True, cr_aborted = None\<rparr>
      else if phase = ''aborted'' then
        \<lparr>cr_text = (if txt = [] then ''Response was interrupted.'' else txt),
         cr_error = None, cr_aborted = Some True\<rparr>
      else \<lparr>cr_text = txt, cr_error = None, cr_aborted = None\<rparr>)"

definition handleAgentEvent :: "AgentPayload \<Rightarrow> GatewayClient \<Rightarrow> GatewayClient" where
  \<comment> \<open>the branch of \<open>handleMessage\<close> for \<open>msg.type === "event" && msg.event === "agent"\<close>\<close>
  "handleAgentEvent payload g =
     (case runId payload of
        None \<Rightarrow> g
      | Some r \<Rightarrow>
          if r = [] then g
          else
            (case pendingChats g r of
               None \<Rightarrow> g
             | Some chat0 \<Rightarrow>
                 (let chat =
                        (if stream payload = Some ''assistant'' \<and> orElse (data_text payload) [] \<noteq> []
                         then chat0\<lparr>pc_chunks := [orElse (data_text payload) []]\<rparr>
                         else chat0);
                      g1 = g\<lparr>pendingChats := (pendingChats g)(r \<mapsto> chat)\<rparr>;
                      phase = orElse (data_phase payload) []
                  in if stream payload = Some ''lifecycle'' \<and> phase \<noteq> [] \<and> isFinalPhase phase
                     then resolvePromise (pc_promise chat)
                            (completion phase (trim (concat (pc_chunks chat))))
                            (deletePending r (clearTimeout (pc_timeout chat) g1))
                     else g1)))"

definition timeoutResponse :: ChatResponse where
  "timeoutResponse =
     \<lparr>cr_text = ''Sorry, I took too long. Can you try again?'',
      cr_error = None, cr_aborted = Some True\<rparr>"

definition fireTimer :: "nat \<Rightarrow> GatewayClient \<Rightarrow> GatewayClient" where
  \<comment> \<open>the timer with handle \<open>t\<close> comes due: its callback runs unless it was cleared\<close>
  "fireTimer t g =
     (if t < length (timers g) then
        (case timers g ! t of
           None \<Rightarrow> g
         | Some tm \<Rightarrow>
             resolvePromise (tm_promise tm) timeoutResponse
               (deletePending (tm_runId tm) (g\<lparr>timers := (timers g)[t := None]\<rparr>)))
      else g)"

definition fullMessage :: "ChatOpts \<Rightarrow> string" where
  "fullMessage opts =
     (case o_systemContext opts of
        None \<Rightarrow> o_message opts
      | Some ctx \<Rightarrow>
          if ctx = [] then o_message opts
          else ''[Context: '' @ ctx @ '']'' @ [CHR 0x0A, CHR 0x0A] @ o_message opts)"

definition awaitChat :: "string \<Rightarrow> nat \<Rightarrow> GatewayClient \<Rightarrow> nat \<times> GatewayClient" where
  \<comment> \<open>the executor of the promise \<open>chat\<close> returns: set the timer, then the entry\<close>
  "awaitChat r timeoutMs g =
     (let p = length (promises g);
          t = length (timers g);
          g1 = g\<lparr>promises := promises g @ [None]\<rparr>;
          g2 = g1\<lparr>timers := timers g1 @ [Some \<lparr>tm_runId = r, tm_promise = p, tm_delay = timeoutMs\<rparr>]\<rparr>;
          g3 = g2\<lparr>pendingChats := (pendingChats g2)
                  (r \<mapsto> \<lparr>pc_promise = p, pc_timeout = t, pc_chunks = []\<rparr>)\<rparr>
      in (p, g3))"

definition chat ::
  "ChatOpts \<Rightarrow> string + string option \<Rightarrow> GatewayClient \<Rightarrow> (string + nat) \<times> GatewayClient" where
  "chat opts response g =
     (let timeoutMs = (case o_timeoutMs opts of
                         None \<Rightarrow> 30000
                       | Some n \<Rightarrow> if n = 0 then 30000 else n)
      in case response of
           Inl err \<Rightarrow> (Inl err, g)
         | Inr answer \<Rightarrow>
             if orElse answer [] = [] then (Inl ''No runId in chat.send response'', g)
             else (let (p, g') = awaitChat (orElse answer []) timeoutMs g in (Inr p, g')))"

definition agentEvents :: "AgentPayload list \<Rightarrow> GatewayClient \<Rightarrow> GatewayClient" where
  "agentEvents ps g = foldl (\<lambda>g p. handleAgentEvent p g) g ps"

definition completes :: "string \<Rightarrow> AgentPayload \<Rightarrow> bool" where
  "completes r payload =
     (runId payload = Some r \<and> stream payload = Some ''lifecycle''
      \<and> isFinalPhase (orElse (data_phase payload) []))"

text \<open>
  Two predicates on states, used to state and prove the timeout property. In a state
  that \<open>chat\<close>, agent events and timers produce from a new client, every handle an
  entry holds was issued before (\<open>handlesInRange\<close>). \<open>awaiting r p t\<close> says that run
  \<open>r\<close> is pending on promise \<open>p\<close> with its timer \<open>t\<close> still set.
\<close>

definition handlesInRange :: "GatewayClient \<Rightarrow> bool" where
  "handlesInRange g =
     (\<forall>r pc. pendingChats g r = Some pc \<longrightarrow>
        pc_promise pc < length (promises g) \<and> pc_timeout pc < length (timers g))"

definition awaiting :: "string \<Rightarrow> nat \<Rightarrow> nat \<Rightarrow> GatewayClient \<Rightarrow> bool" where
  "awaiting r p t g =
     (\<exists>pc tm. pendingChats g r = Some pc \<and> pc_promise pc = p \<and> pc_timeout pc = t
        \<and> t < length (timers g) \<and> timers g ! t = Some tm
        \<and> tm_runId tm = r \<and> tm_promise tm = p
        \<and> p < length (promises g) \<and> promises g ! p = None
        \<and> (\<forall>r' pc'. r' \<noteq> r \<and> pendingChats g r' = Some pc' \<longrightarrow>
               pc_promise pc' \<noteq> p \<and> pc_timeout pc' \<noteq> t))"

section \<open>Properties of caller authorization\<close>

lemma stripPhone_idem: "stripPhone (stripPhone s) = stripPhone s"
  by (simp add: stripPhone_def)

lemma stripPhone_append: "stripPhone (a @ b) = stripPhone a @ stripPhone b"
  by (simp add: stripPhone_def)

lemma stripPhone_plus: "stripPhone ''+'' = ''+''"
  by (simp add: stripPhone_def)

lemma stripPhone_plus_one: "stripPhone ''+1'' = ''+1''"
  by (simp add: stripPhone_def isDigit_def)

lemma normalizePhone_of_plus:
  "startsWith n ''+'' \<Longrightarrow> stripPhone n = n \<Longrightarrow> normalizePhone n = n"
  by (simp add: normalizePhone_def)

text \<open>
  C8. \<open>normalizePhone\<close> is idempotent: normalising a normalised number changes
  nothing, for every input string.
\<close>

theorem normalizePhone_idempotent: "normalizePhone (normalizePhone x) = normalizePhone x"
proof -
  define n where "n = stripPhone x"
  have n: "stripPhone n = n" by (simp add: n_def stripPhone_idem)
  have nx: "normalizePhone n = normalizePhone x"
    by (simp add: normalizePhone_def n n_def [symmetric])
  consider (ten) "normalizePhone x = ''+1'' @ n"
    | (eleven) "normalizePhone x = ''+'' @ n"
    | (same) "normalizePhone x = n"
    unfolding normalizePhone_def n_def [symmetric] Let_def by (cases "length n = 10"; cases "length n = 11 \<and> startsWith n ''1''"; cases "startsWith n ''+''"; simp; blast)
  then show ?thesis
  proof cases
    case ten
    have s: "startsWith (''+1'' @ n) ''+''"
      by (simp add: startsWith_def)
    have t: "stripPhone (''+1'' @ n) = ''+1'' @ n"
      unfolding stripPhone_append stripPhone_plus_one n by (rule refl)
    have "normalizePhone (''+1'' @ n) = ''+1'' @ n"
      using s t by (rule normalizePhone_of_plus)
    with ten show ?thesis by simp
  next
    case eleven
    have s: "startsWith (''+'' @ n) ''+''"
      by (simp add: startsWith_def)
    have t: "stripPhone (''+'' @ n) = ''+'' @ n"
      unfolding stripPhone_append stripPhone_plus n by (rule refl)
    have "normalizePhone (''+'' @ n) = ''+'' @ n"
      using s t by (rule normalizePhone_of_plus)
    with eleven show ?thesis by simp
  next
    case same
    with nx show ?thesis by simp
  qed
qed

lemma normalizePhone_e164: "normalizePhone ''+15551234567'' = ''+15551234567''"
  by (simp add: normalizePhone_def stripPhone_def isDigit_def startsWith_def)

lemma normalizePhone_ten_digits: "normalizePhone ''5551234567'' = ''+15551234567''"
  by (simp add: normalizePhone_def stripPhone_def isDigit_def startsWith_def)

text \<open>
  C1. \<open>isAllowedCaller p L\<close> is true when \<open>L\<close> is empty; when \<open>L\<close> is not empty it is
  true exactly when the normalised \<open>p\<close> equals the normalised form of some entry of \<open>L\<close>
  (equality of the whole normalised strings). In particular every \<open>x\<close> is allowed by
  the empty list, and \<open>+15551234567\<close> is allowed by the list holding \<open>5551234567\<close>.
\<close>

theorem isAllowedCaller_exact:
  "(L = [] \<longrightarrow> isAllowedCaller p L) \<and>
   (L \<noteq> [] \<longrightarrow> isAllowedCaller p L = (\<exists>e \<in> set L. normalizePhone p = normalizePhone e)) \<and>
   isAllowedCaller x [] \<and>
   isAllowedCaller ''+15551234567'' [''5551234567'']"
  by (simp add: isAllowedCaller_def list_ex_iff normalizePhone_e164 normalizePhone_ten_digits)

theorem isAllowedCaller_exact_witness:
  "isAllowedCaller ''(555) 123-4567'' [''+15550000000'', ''1 555 123 4567''] \<and>
   \<not> isAllowedCaller ''+1555123456'' [''+15551234567''] \<and>
   \<not> isAllowedCaller ''+155512345678'' [''+15551234567'']"
  using isAllowedCaller_exact [of "[''+15550000000'', ''1 555 123 4567'']" "''(555) 123-4567''"]
    isAllowedCaller_exact [of "[''+15551234567'']" "''+1555123456''"]
    isAllowedCaller_exact [of "[''+15551234567'']" "''+155512345678''"]
  by (simp add: normalizePhone_def stripPhone_def isDigit_def startsWith_def)

subsection \<open>The code's stripping against the specification's\<close>

lemma stripPhone_set: "c \<in> set (stripPhone p) \<Longrightarrow> isDigit c \<or> c = CHR ''+''"
  by (auto simp: stripPhone_def)

lemma plus_not_digit: "\<not> isDigit CHR ''+''"
  by (simp add: isDigit_def)

lemma strip_spec_eq:
  assumes "CHR ''+'' \<notin> set (tl (stripPhone p))"
  shows "strip_spec p = stripPhone p"
proof (cases "stripPhone p")
  case Nil
  then show ?thesis by (simp add: strip_spec_def stripPhone_def startsWith_def)
next
  case (Cons a k)
  have k: "filter isDigit k = k"
    using assms stripPhone_set [of _ p] Cons by (auto simp: filter_id_conv)
  show ?thesis
  proof (cases "a = CHR ''+''")
    case True
    with Cons k show ?thesis
      by (simp add: strip_spec_def stripPhone_def [symmetric] startsWith_def plus_not_digit)
  next
    case False
    then have "isDigit a" using stripPhone_set [of a p] Cons by simp
    with False Cons k show ?thesis
      by (simp add: strip_spec_def stripPhone_def [symmetric] startsWith_def)
  qed
qed

text \<open>
  Where no \<open>+\<close> stands after the first kept character, the code and the specification's
  wording normalise alike.
\<close>

lemma normalizePhone_refines_spec:
  assumes "CHR ''+'' \<notin> set (tl (stripPhone p))"
  shows "normalizePhone p = normalize_spec p"
proof -
  have "CHR ''+'' \<in> set (stripPhone p) \<longleftrightarrow> startsWith (stripPhone p) ''+''"
    using assms by (cases "stripPhone p") (auto simp: startsWith_def)
  then show ?thesis
    by (auto simp: normalizePhone_def normalize_spec_def strip_spec_eq [OF assms] Let_def)
qed

text \<open>
  C3. The claim: \<open>normalizePhone\<close> strips every character except digits and a leading
  \<open>+\<close>, then applies the two prefix rules. The code keeps a \<open>+\<close> wherever it stands:
  on \<open>555-123+4567\<close> it returns \<open>555123+4567\<close>, where the claimed normalisation
  gives \<open>+15551234567\<close>.
\<close>

theorem normalizePhone_keeps_inner_plus:
  "normalizePhone ''555-123+4567'' = ''555123+4567'' \<and>
   normalize_spec ''555-123+4567'' = ''+15551234567''"
  by (simp add: normalizePhone_def stripPhone_def normalize_spec_def strip_spec_def
      isDigit_def startsWith_def)

section \<open>Properties of the message handler\<close>

subsection \<open>End-of-call inference\<close>

lemma startsWith_prefix: "startsWith s p = prefix p s"
  unfolding startsWith_def
  by (metis append_eq_conv_conj prefix_def)

lemma includesStr_sublist: "includesStr s p = sublist p s"
proof (induction s)
  case Nil
  then show ?case by simp
next
  case (Cons c s)
  then show ?case
    by (simp add: startsWith_prefix sublist_Cons_right)
qed

lemma includesStr_iff: "includesStr s p = (\<exists>u v. s = u @ p @ v)"
  by (simp add: includesStr_sublist sublist_def)

lemma shouldEndCall_iff:
  "shouldEndCall lc r =
     (\<exists>p \<in> set [''goodbye'', ''talk to you later'', ''bye for now'', ''have a good''].
        \<exists>u v. toLowerCase lc r = u @ p @ v)"
  unfolding shouldEndCall_def includesStr_iff by simp

text \<open>
  The lowering of one ASCII character, by its code: 65 to 90 (\<open>A\<close> to \<open>Z\<close>) move up by
  32, every other byte stays.
\<close>

lemma toLowerChar_code:
  "of_char (toLowerChar c) =
     (if 65 \<le> (of_char c :: nat) \<and> (of_char c :: nat) \<le> 90 then of_char c + 32
      else of_char c)"
  by (cases c) (simp add: toLowerChar_def)

lemma toLowerChar_arith:
  "toLowerChar c =
     (if 65 \<le> (of_char c :: nat) \<and> (of_char c :: nat) \<le> 90
      then char_of (of_char c + 32 :: nat) else c)"
proof -
  have "toLowerChar c = char_of (of_char (toLowerChar c) :: nat)"
    by simp
  also have "\<dots> = (if 65 \<le> (of_char c :: nat) \<and> (of_char c :: nat) \<le> 90
                    then char_of (of_char c + 32 :: nat) else c)"
    unfolding toLowerChar_code by simp
  finally show ?thesis .
qed

lemma toLowerChar_fun:
  "toLowerChar =
     (\<lambda>c. if 65 \<le> (of_char c :: nat) \<and> (of_char c :: nat) \<le> 90
          then char_of (of_char c + 32 :: nat) else c)"
  by (rule ext) (rule toLowerChar_arith)

lemma toLowerCase_ascii:
  "list_all isAscii r \<Longrightarrow>
   toLowerCase lc r =
     map (\<lambda>c. if 65 \<le> (of_char c :: nat) \<and> (of_char c :: nat) \<le> 90
              then char_of (of_char c + 32 :: nat) else c) r"
  unfolding toLowerCase_def toLowerChar_fun [symmetric] by simp

text \<open>
  C6. For every reply \<open>r\<close> that \<open>generateAgentResponse\<close> returns for a turn, the
  frame sent carries \<open>r\<close> and its \<open>end_call\<close> flag is true exactly when the lowercased
  \<open>r\<close> contains one of \<open>goodbye\<close>, \<open>talk to you later\<close>, \<open>bye for now\<close>,
  \<open>have a good\<close>. The lowercased \<open>r\<close> is, for an all-ASCII \<open>r\<close>, \<open>r\<close> with the codes
  65 to 90 raised by 32, and for any other \<open>r\<close> what the engine's case mapping makes
  of it (whatever that mapping is). So \<open>Okay, have a good one!\<close> ends the call and
  \<open>Sure, here's the weather.\<close> does not; a farewell in capitals ends it too.
\<close>

theorem end_call_iff_farewell:
  assumes "invoked (handleMessage lc (Some c) generate s e) = [(s', m)]"
    and "generate s' m = Inr r"
  shows "sent (handleMessage lc (Some c) generate s e) =
           [ResponseFrame (ev_response_id e) r True
              (\<exists>p \<in> set [''goodbye'', ''talk to you later'', ''bye for now'', ''have a good''].
                 \<exists>u v. toLowerCase lc r = u @ p @ v)]
         \<and> (if list_all isAscii r
              then toLowerCase lc r =
                     map (\<lambda>c. if 65 \<le> (of_char c :: nat) \<and> (of_char c :: nat) \<le> 90
                              then char_of (of_char c + 32 :: nat) else c) r
              else toLowerCase lc r = lc r)
         \<and> toLowerCase lc ''ABCDEFGHIJKLMNOPQRSTUVWXYZ @[`{09'' = ''abcdefghijklmnopqrstuvwxyz @[`{09''
         \<and> shouldEndCall lc ''Okay, have a good one!''
         \<and> \<not> shouldEndCall lc ''Sure, here's the weather.''
         \<and> shouldEndCall lc ''GOODBYE!''
         \<and> shouldEndCall lc ''Alright. Bye For Now.''"
proof (intro conjI)
  show "sent (handleMessage lc (Some c) generate s e) =
           [ResponseFrame (ev_response_id e) r True
              (\<exists>p \<in> set [''goodbye'', ''talk to you later'', ''bye for now'', ''have a good''].
                 \<exists>u v. toLowerCase lc r = u @ p @ v)]"
    using assms unfolding shouldEndCall_iff [symmetric]
    by (auto simp: handleMessage_def handleTurn_def quiet_def Let_def
        split: if_splits option.splits sum.splits)
  show "if list_all isAscii r
        then toLowerCase lc r =
               map (\<lambda>c. if 65 \<le> (of_char c :: nat) \<and> (of_char c :: nat) \<le> 90
                        then char_of (of_char c + 32 :: nat) else c) r
        else toLowerCase lc r = lc r"
    using toLowerCase_ascii [of r lc] by (simp add: toLowerCase_def)
  show "toLowerCase lc ''ABCDEFGHIJKLMNOPQRSTUVWXYZ @[`{09'' = ''abcdefghijklmnopqrstuvwxyz @[`{09''"
    by (simp add: toLowerCase_def toLowerChar_def isAscii_def)
  show "shouldEndCall lc ''Okay, have a good one!''"
    by (simp add: shouldEndCall_def toLowerCase_def toLowerChar_def isAscii_def startsWith_def)
  show "\<not> shouldEndCall lc ''Sure, here's the weather.''"
    by (simp add: shouldEndCall_def toLowerCase_def toLowerChar_def isAscii_def startsWith_def)
  show "shouldEndCall lc ''GOODBYE!''"
    by (simp add: shouldEndCall_def toLowerCase_def toLowerChar_def isAscii_def startsWith_def)
  show "shouldEndCall lc ''Alright. Bye For Now.''"
    by (simp add: shouldEndCall_def toLowerCase_def toLowerChar_def isAscii_def startsWith_def)
qed

theorem end_call_iff_farewell_witness:
  "sent (handleMessage (\<lambda>x. x)
      (Some \<lparr>config = \<lparr>enabled = True, apiKey = None, allowFrom = [],
      greeting = ''Hey! What's up?'', websocket_port = 8765, websocket_path = ''/llm-websocket'',
      tailscale_mode = ''off'', tailscale_path = None, responseModel = None,
      responseTimeoutMs = 30000\<rparr>\<rparr>)
      (\<lambda>s m. if m = ''Bye'' then Inr ''OK. Talk To You Later!'' else Inr ''Sure.'')
      (newSession ''call-1'')
      \<lparr>interaction_type = Some ''response_required'', ev_call = None, ev_timestamp = None,
       ev_response_id = Some 3,
       ev_transcript = Some [\<lparr>u_role = Some ''user'', u_content = Some ''Bye''\<rparr>]\<rparr>)
   = [ResponseFrame (Some 3) ''OK. Talk To You Later!'' True True]"
proof -
  let ?c = "\<lparr>config = \<lparr>enabled = True, apiKey = None, allowFrom = [],
      greeting = ''Hey! What's up?'', websocket_port = 8765, websocket_path = ''/llm-websocket'',
      tailscale_mode = ''off'', tailscale_path = None, responseModel = None,
      responseTimeoutMs = 30000\<rparr>\<rparr>"
  let ?g = "\<lambda>s m. if m = ''Bye'' then Inr ''OK. Talk To You Later!'' else Inr ''Sure.''"
  let ?e = "\<lparr>interaction_type = Some ''response_required'', ev_call = None, ev_timestamp = None,
       ev_response_id = Some 3,
       ev_transcript = Some [\<lparr>u_role = Some ''user'', u_content = Some ''Bye''\<rparr>]\<rparr>"
  let ?s' = "(newSession ''call-1'')\<lparr>transcript := [\<lparr>role = User, content = ''Bye''\<rparr>]\<rparr>"
  have called: "invoked (handleMessage (\<lambda>x. x) (Some ?c) ?g (newSession ''call-1'') ?e)
                  = [(?s', ''Bye'')]"
    by (simp add: handleMessage_def handleTurn_def Let_def lastUserContent_def
        lastUserMessage_def sliceLast_def toEntry_def orElse_def newSession_def)
  have reply: "?g ?s' ''Bye'' = Inr ''OK. Talk To You Later!''"
    by simp
  have lowered: "toLowerCase (\<lambda>x. x) ''OK. Talk To You Later!'' = ''ok. '' @ ''talk to you later'' @ ''!''"
    by (simp add: toLowerCase_def toLowerChar_def isAscii_def)
  have farewell:
    "\<exists>p \<in> set [''goodbye'', ''talk to you later'', ''bye for now'', ''have a good''].
       \<exists>u v. toLowerCase (\<lambda>x. x) ''OK. Talk To You Later!'' = u @ p @ v"
    unfolding lowered by (rule bexI [of _ "''talk to you later''"]) (blast, simp)
  have "sent (handleMessage (\<lambda>x. x) (Some ?c) ?g (newSession ''call-1'') ?e) =
          [ResponseFrame (ev_response_id ?e) ''OK. Talk To You Later!'' True
             (\<exists>p \<in> set [''goodbye'', ''talk to you later'', ''bye for now'', ''have a good''].
                \<exists>u v. toLowerCase (\<lambda>x. x) ''OK. Talk To You Later!'' = u @ p @ v)]"
    by (rule end_call_iff_farewell [OF called reply, THEN conjunct1])
  then show ?thesis
    unfolding eqTrueI [OF farewell] by simp
qed

text \<open>The two replies of the specification, and one in capitals, through the handler.\<close>

lemma replies_through_handler:
  "sent (handleMessage lc
      (Some \<lparr>config = \<lparr>enabled = True, apiKey = None, allowFrom = [],
      greeting = ''Hey! What's up?'', websocket_port = 8765, websocket_path = ''/llm-websocket'',
      tailscale_mode = ''off'', tailscale_path = None, responseModel = None,
      responseTimeoutMs = 30000\<rparr>\<rparr>)
      (\<lambda>s m. Inr reply)
      (newSession ''call-1'')
      \<lparr>interaction_type = Some ''reminder_required'', ev_call = None, ev_timestamp = None,
       ev_response_id = Some 4,
       ev_transcript = Some [\<lparr>u_role = Some ''user'', u_content = Some ''Weather?''\<rparr>]\<rparr>)
   = [ResponseFrame (Some 4) reply True (shouldEndCall lc reply)]"
  by (simp add: handleMessage_def handleTurn_def Let_def lastUserContent_def
      lastUserMessage_def sliceLast_def toEntry_def orElse_def newSession_def)

lemma weather_reply_keeps_call:
  "shouldEndCall lc ''Okay, have a good one!'' = True \<and>
   shouldEndCall lc ''Sure, here's the weather.'' = False \<and>
   shouldEndCall lc ''HAVE A GOOD DAY'' = True \<and>
   shouldEndCall lc ''Good buy'' = False"
  by (simp add: shouldEndCall_def toLowerCase_def toLowerChar_def isAscii_def startsWith_def)

text \<open>
  A reply that is not all ASCII is lowered by the engine: with the Kelvin sign (U+212A,
  which the Unicode mapping lowers to \<open>k\<close>) in \<open>TALK TO YOU LATER\<close>, the call ends
  exactly when the phrase stands in the engine's result.
\<close>

lemma kelvin_reply:
  "shouldEndCall lc (''TAL'' @ [CHR 0xE2, CHR 0x84, CHR 0xAA] @ '' TO YOU LATER'') =
     (\<exists>p \<in> set [''goodbye'', ''talk to you later'', ''bye for now'', ''have a good''].
        \<exists>u v. lc (''TAL'' @ [CHR 0xE2, CHR 0x84, CHR 0xAA] @ '' TO YOU LATER'') = u @ p @ v)"
  unfolding shouldEndCall_iff by (simp add: toLowerCase_def isAscii_def)

subsection \<open>Turns before authorization\<close>

text \<open>
  C5. In a session that is not yet authorized, under a non-empty allowlist, a
  \<open>response_required\<close> or \<open>reminder_required\<close> event sends exactly one frame, the holding
  message with the event's \<open>response_id\<close>, \<open>content_complete\<close> true and \<open>end_call\<close>
  false; \<open>generateAgentResponse\<close> is not called and the session is left as it was.
\<close>

theorem holding_before_authorization:
  assumes "\<not> authorized s" and "allowFrom (config c) \<noteq> []"
    and "interaction_type e = Some ''response_required''
         \<or> interaction_type e = Some ''reminder_required''"
  shows "handleMessage lc (Some c) generate s e =
           \<lparr>session_after = s,
            sent = [ResponseFrame (ev_response_id e) ''One moment please...'' True False],
            invoked = []\<rparr>"
  using assms by (auto simp: handleMessage_def handleTurn_def holdingFrame_def)

theorem holding_before_authorization_witness:
  "handleMessage (\<lambda>x. x)
      (Some \<lparr>config = \<lparr>enabled = True, apiKey = None, allowFrom = [''+15551234567''],
      greeting = ''Hey! What's up?'', websocket_port = 8765, websocket_path = ''/llm-websocket'',
      tailscale_mode = ''off'', tailscale_path = None, responseModel = None,
      responseTimeoutMs = 30000\<rparr>\<rparr>)
      (\<lambda>s m. Inr ''Hello'')
      (newSession ''call-1'')
      \<lparr>interaction_type = Some ''response_required'', ev_call = None, ev_timestamp = None,
       ev_response_id = Some 1,
       ev_transcript = Some [\<lparr>u_role = Some ''user'', u_content = Some ''Hi''\<rparr>]\<rparr>
   = \<lparr>session_after = newSession ''call-1'',
      sent = [ResponseFrame (Some 1) ''One moment please...'' True False],
      invoked = []\<rparr>"
  using holding_before_authorization [of "newSession ''call-1''"
      "\<lparr>config = \<lparr>enabled = True, apiKey = None, allowFrom = [''+15551234567''],
      greeting = ''Hey! What's up?'', websocket_port = 8765, websocket_path = ''/llm-websocket'',
      tailscale_mode = ''off'', tailscale_path = None, responseModel = None,
      responseTimeoutMs = 30000\<rparr>\<rparr>"
      "\<lparr>interaction_type = Some ''response_required'', ev_call = None, ev_timestamp = None,
       ev_response_id = Some 1,
       ev_transcript = Some [\<lparr>u_role = Some ''user'', u_content = Some ''Hi''\<rparr>]\<rparr>"
      "\<lambda>x. x" "\<lambda>s m. Inr ''Hello''"]
  by (simp add: newSession_def)

subsection \<open>The transcript window\<close>

lemma handleTurn_transcript:
  "length (transcript s) \<le> 10 \<Longrightarrow>
   length (transcript (session_after (handleTurn lc c g s e))) \<le> 10"
  by (auto simp: handleTurn_def Let_def sliceLast_def split: option.splits sum.splits)

lemma handleMessage_transcript:
  "length (transcript s) \<le> 10 \<Longrightarrow>
   length (transcript (session_after (handleMessage lc ctx g s e))) \<le> 10"
  by (auto simp: handleMessage_def quiet_def Let_def handleTurn_transcript split: option.splits)

lemma handleMessage_embedded_transcript:
  "length (transcript s) \<le> 10 \<Longrightarrow>
   length (transcript (session_after (handleMessage_embedded lc ctx g s e))) \<le> 10"
  by (auto simp: handleMessage_embedded_def quiet_def Let_def handleTurn_transcript
      split: option.splits)

lemma run_transcript:
  "length (transcript s) \<le> 10 \<Longrightarrow> length (transcript (run lc ctx g s es)) \<le> 10"
  unfolding run_def
  by (induction es arbitrary: s) (simp_all add: handleMessage_transcript)

lemma run_embedded_transcript:
  "length (transcript s) \<le> 10 \<Longrightarrow> length (transcript (run_embedded lc ctx g s es)) \<le> 10"
  unfolding run_embedded_def
  by (induction es arbitrary: s) (simp_all add: handleMessage_embedded_transcript)

text \<open>
  The session a message leaves behind does not depend on what the backend answers: the
  transcript is assigned before \<open>generateAgentResponse\<close> is called, and nothing is
  assigned after it.
\<close>

lemma session_after_any_backend:
  "session_after (handleMessage lc ctx g s e) = session_after (handleMessage lc ctx g' s e)"
  by (auto simp: handleMessage_def handleTurn_def quiet_def Let_def
      split: option.splits sum.splits)

text \<open>The bound is reached: twelve utterances in the event leave ten in the session.\<close>

lemma transcript_window_reached:
  "length (transcript (run lc
      (Some \<lparr>config = \<lparr>enabled = True, apiKey = None, allowFrom = [],
         greeting = ''Hey! What's up?'', websocket_port = 8765,
         websocket_path = ''/llm-websocket'', tailscale_mode = ''off'', tailscale_path = None,
         responseModel = None, responseTimeoutMs = 30000\<rparr>\<rparr>)
      g (newSession ''call-1'')
      [\<lparr>interaction_type = Some ''response_required'', ev_call = None, ev_timestamp = None,
        ev_response_id = Some 7,
        ev_transcript = Some (replicate 12 \<lparr>u_role = Some ''user'', u_content = Some ''Hi''\<rparr>)\<rparr>]))
   = 10"
  by (simp add: run_def handleMessage_def handleTurn_def Let_def lastUserContent_def
      lastUserMessage_def sliceLast_def newSession_def split: sum.splits)

text \<open>
  C7. The transcript of a session never holds more than 10 entries: it is empty when
  the session is created, every assignment stores (the entries made from) the last 10
  utterances of the event's transcript at most, and so after any sequence of events,
  in either variant of the server, its length is at most 10.
\<close>

theorem transcript_window:
  "transcript (newSession cid) = [] \<and>
   length (transcript (run lc ctx g (newSession cid) es)) \<le> 10 \<and>
   transcript (newSession_embedded cid uuid) = [] \<and>
   length (transcript (run_embedded lc ctx g' (newSession_embedded cid uuid) es)) \<le> 10 \<and>
   length (sliceLast 10 ts) \<le> 10"
proof -
  have a: "transcript (newSession cid) = []"
    by (simp add: newSession_def)
  have b: "transcript (newSession_embedded cid uuid) = []"
    by (simp add: newSession_embedded_def)
  have "length (transcript (run lc ctx g (newSession cid) es)) \<le> 10"
    by (rule run_transcript) (simp add: a)
  moreover have "length (transcript (run_embedded lc ctx g' (newSession_embedded cid uuid) es)) \<le> 10"
    by (rule run_embedded_transcript) (simp add: b)
  moreover have "length (sliceLast 10 ts) \<le> 10"
    by (simp add: sliceLast_def)
  ultimately show ?thesis using a b by simp
qed

subsection \<open>Which number is checked\<close>

lemma handleMessage_checks_direction:
  assumes "interaction_type e = Some ''call_details''" and "ev_call e = Some cd"
  shows "sent (handleMessage lc (Some c) g s e) =
           [if isAllowedCaller
                 (orElse (if call_direction cd = Some ''outbound'' then call_to_number cd
                          else call_from_number cd) [])
                 (allowFrom (config c))
            then greetingFrame c else rejectionFrame]"
  using assms
  by (auto simp: handleMessage_def numberToCheck_def orElse_def Let_def split: option.splits)

lemma handleMessage_embedded_checks_from:
  assumes "interaction_type e = Some ''call_details''" and "ev_call e = Some cd"
  shows "sent (handleMessage_embedded lc (Some c) g s e) =
           [if isAllowedCaller (orElse (call_from_number cd) []) (allowFrom (config c))
            then greetingFrame c else rejectionFrame]"
  using assms
  by (auto simp: handleMessage_embedded_def Let_def)

text \<open>
  C2. The claim: the number put to the allowlist is \<open>from_number\<close> for an inbound call (or
  one with no direction) and \<open>to_number\<close> for an outbound call. The gateway variant
  does so (\<open>handleMessage_checks_direction\<close>). The embedded variant never reads the
  direction: on an outbound call to an allowed number, placed from a number that is not
  on the list, it rejects the call, where the gateway variant authorizes it.
\<close>

theorem embedded_outbound_checks_from_number:
  "handleMessage_embedded lc
      (Some \<lparr>config = \<lparr>enabled = True, apiKey = None, allowFrom = [''+15551234567''],
      greeting = ''Hey! What's up?'', websocket_port = 8765, websocket_path = ''/llm-websocket'',
      tailscale_mode = ''off'', tailscale_path = None, responseModel = None,
      responseTimeoutMs = 30000\<rparr>\<rparr>)
      g
      (newSession_embedded ''call-1'' ''uuid-1'')
      \<lparr>interaction_type = Some ''call_details'',
       ev_call = Some \<lparr>call_direction = Some ''outbound'',
                        call_from_number = Some ''+15559990000'',
                        call_to_number = Some ''+15551234567''\<rparr>,
       ev_timestamp = None, ev_response_id = None, ev_transcript = None\<rparr>
   = \<lparr>session_after = (newSession_embedded ''call-1'' ''uuid-1'')\<lparr>fromNumber := Some ''+15559990000''\<rparr>,
      sent = [ResponseFrame (Some 0) ''Sorry, this number is not authorized. Goodbye.'' True True],
      invoked = []\<rparr>
   \<and>
   handleMessage lc
      (Some \<lparr>config = \<lparr>enabled = True, apiKey = None, allowFrom = [''+15551234567''],
      greeting = ''Hey! What's up?'', websocket_port = 8765, websocket_path = ''/llm-websocket'',
      tailscale_mode = ''off'', tailscale_path = None, responseModel = None,
      responseTimeoutMs = 30000\<rparr>\<rparr>)
      g'
      (newSession ''call-1'')
      \<lparr>interaction_type = Some ''call_details'',
       ev_call = Some \<lparr>call_direction = Some ''outbound'',
                        call_from_number = Some ''+15559990000'',
                        call_to_number = Some ''+15551234567''\<rparr>,
       ev_timestamp = None, ev_response_id = None, ev_transcript = None\<rparr>
   = \<lparr>session_after = \<lparr>callId = ''call-1'', fromNumber = Some ''+15551234567'',
         authorized = True, transcript = [], sessionKey = ''retell:+15551234567''\<rparr>,
      sent = [ResponseFrame (Some 0) ''Hey! What's up?'' True False],
      invoked = []\<rparr>"
  by (simp add: handleMessage_embedded_def handleMessage_def newSession_embedded_def
      newSession_def numberToCheck_def orElse_def isAllowedCaller_def normalizePhone_def
      stripPhone_def isDigit_def startsWith_def rejectionFrame_def greetingFrame_def Let_def)

subsection \<open>A denied caller\<close>

text \<open>
  C10. When the number taken from a \<open>call_details\<close> event is denied (which needs a
  non-empty allowlist), \<open>handleMessage\<close> of the gateway variant sends the rejection frame,
  with \<open>end_call\<close> true, calls nothing, and leaves every field of the session as it was.
  On a fresh session: \<open>authorized\<close> is still false, \<open>sessionKey\<close> is still
  \<open>retell:\<close> followed by the call id, \<open>fromNumber\<close> is unset and the transcript is
  empty. The session record has no field that marks a rejection.
\<close>

theorem denied_call_details_leaves_session:
  assumes "interaction_type e = Some ''call_details''"
    and "\<not> isAllowedCaller
            (orElse (numberToCheck (case ev_call e of None \<Rightarrow> emptyCall | Some d \<Rightarrow> d)) [])
            (allowFrom (config c))"
  shows "handleMessage lc (Some c) g s e =
           \<lparr>session_after = s,
            sent = [ResponseFrame (Some 0) ''Sorry, this number is not authorized. Goodbye.''
                      True True],
            invoked = []\<rparr>
         \<and> allowFrom (config c) \<noteq> []
         \<and> session_after (handleMessage lc (Some c) g' (newSession cid) e) =
             \<lparr>callId = cid, fromNumber = None, authorized = False, transcript = [],
              sessionKey = ''retell:'' @ cid\<rparr>"
  using assms
  by (auto simp: handleMessage_def rejectionFrame_def newSession_def isAllowedCaller_def Let_def)

theorem denied_call_details_leaves_session_witness:
  "handleMessage (\<lambda>x. x)
      (Some \<lparr>config = \<lparr>enabled = True, apiKey = None, allowFrom = [''+15551234567''],
      greeting = ''Hey! What's up?'', websocket_port = 8765, websocket_path = ''/llm-websocket'',
      tailscale_mode = ''off'', tailscale_path = None, responseModel = None,
      responseTimeoutMs = 30000\<rparr>\<rparr>)
      (\<lambda>s m. Inr ''Hello'')
      (newSession ''call-1'')
      \<lparr>interaction_type = Some ''call_details'',
       ev_call = Some \<lparr>call_direction = Some ''inbound'',
                        call_from_number = Some ''+15559990000'',
                        call_to_number = Some ''+15551234567''\<rparr>,
       ev_timestamp = None, ev_response_id = None, ev_transcript = None\<rparr>
   = \<lparr>session_after = newSession ''call-1'',
      sent = [ResponseFrame (Some 0) ''Sorry, this number is not authorized. Goodbye.'' True True],
      invoked = []\<rparr>"
  using denied_call_details_leaves_session [of
      "\<lparr>interaction_type = Some ''call_details'',
       ev_call = Some \<lparr>call_direction = Some ''inbound'',
                        call_from_number = Some ''+15559990000'',
                        call_to_number = Some ''+15551234567''\<rparr>,
       ev_timestamp = None, ev_response_id = None, ev_transcript = None\<rparr>"
      "\<lparr>config = \<lparr>enabled = True, apiKey = None, allowFrom = [''+15551234567''],
      greeting = ''Hey! What's up?'', websocket_port = 8765, websocket_path = ''/llm-websocket'',
      tailscale_mode = ''off'', tailscale_path = None, responseModel = None,
      responseTimeoutMs = 30000\<rparr>\<rparr>"
      "\<lambda>x. x" "\<lambda>s m. Inr ''Hello''" "newSession ''call-1''"]
  by (simp add: numberToCheck_def orElse_def isAllowedCaller_def normalizePhone_def
      stripPhone_def isDigit_def startsWith_def)

section \<open>Properties of model resolution\<close>

lemma indexOf_None: "CHR ''/'' \<notin> set s \<Longrightarrow> indexOf s CHR ''/'' = None"
  by (simp add: indexOf_def)

lemma indexOf_first:
  "CHR ''/'' \<notin> set p \<Longrightarrow> indexOf (p @ ''/'' @ m) CHR ''/'' = Some (length p)"
  by (induction p) (auto simp: indexOf_def)

text \<open>
  C9, as amended. With no configured model (or an empty one), and a default provider
  that holds no \<open>/\<close>, the default provider and the default model are used. A configured
  string with no \<open>/\<close> keeps the default provider and is itself the model. A configured
  string with a \<open>/\<close> gives the provider before its first \<open>/\<close> and the model after it.
\<close>

theorem resolveModel_cases:
  "(CHR ''/'' \<notin> set DEFAULT_PROVIDER \<longrightarrow>
      resolveModel DEFAULT_PROVIDER DEFAULT_MODEL None = (DEFAULT_PROVIDER, DEFAULT_MODEL) \<and>
      resolveModel DEFAULT_PROVIDER DEFAULT_MODEL (Some []) = (DEFAULT_PROVIDER, DEFAULT_MODEL)) \<and>
   (m \<noteq> [] \<and> CHR ''/'' \<notin> set m \<longrightarrow>
      resolveModel DEFAULT_PROVIDER DEFAULT_MODEL (Some m) = (DEFAULT_PROVIDER, m)) \<and>
   (CHR ''/'' \<notin> set p \<longrightarrow>
      resolveModel DEFAULT_PROVIDER DEFAULT_MODEL (Some (p @ ''/'' @ m')) = (p, m'))"
  by (auto simp: resolveModel_def orElse_def Let_def indexOf_None indexOf_first
      simp del: append.simps)

theorem resolveModel_cases_witness:
  "resolveModel ''anthropic'' ''claude-opus'' None = (''anthropic'', ''claude-opus'') \<and>
   resolveModel ''anthropic'' ''claude-opus'' (Some ''gpt-4o'') = (''anthropic'', ''gpt-4o'') \<and>
   resolveModel ''anthropic'' ''claude-opus'' (Some ''openai/gpt-4o'') = (''openai'', ''gpt-4o'')"
  using resolveModel_cases [of "''anthropic''" "''claude-opus''" "''gpt-4o''" "''openai''" "''gpt-4o''"]
  by simp

text \<open>
  The claim as first stated, that a configured string with no \<open>/\<close> leaves the default
  model in use, fails on a bare model name.
\<close>

theorem resolveModel_bare_name_counterexample:
  "resolveModel ''anthropic'' ''claude-opus'' (Some ''gpt-4o'') \<noteq> (''anthropic'', ''claude-opus'')"
  by (simp add: resolveModel_def orElse_def indexOf_def)

section \<open>Properties of the gateway client\<close>

lemma handlesInRangeD:
  "handlesInRange g \<Longrightarrow> pendingChats g r = Some pc \<Longrightarrow>
   pc_promise pc < length (promises g) \<and> pc_timeout pc < length (timers g)"
  unfolding handlesInRange_def by blast

lemma awaitChat_awaiting:
  assumes "handlesInRange g"
  shows "awaiting r (length (promises g)) (length (timers g)) (snd (awaitChat r ms g))"
proof -
  have "pc_promise pc' \<noteq> length (promises g) \<and> pc_timeout pc' \<noteq> length (timers g)"
    if "pendingChats g r' = Some pc'" for r' pc'
    using handlesInRangeD [OF assms that] by simp
  then show ?thesis
    unfolding awaiting_def awaitChat_def Let_def
    by (simp add: nth_append)
qed

lemma resolvePromise_simps:
  "pendingChats (resolvePromise p v g) = pendingChats g"
  "timers (resolvePromise p v g) = timers g"
  "length (promises (resolvePromise p v g)) = length (promises g)"
  by (simp_all add: resolvePromise_def)

lemma resolvePromise_other:
  "q \<noteq> p \<Longrightarrow> promises (resolvePromise p v g) ! q = promises g ! q"
  by (simp add: resolvePromise_def)

lemma resolvePromise_settled:
  "promises g ! q = Some w \<Longrightarrow> promises (resolvePromise p v g) ! q = Some w"
  by (cases "q = p") (auto simp: resolvePromise_def)

lemma resolvePromise_pending:
  "p < length (promises g) \<Longrightarrow> promises g ! p = None \<Longrightarrow>
   promises (resolvePromise p v g) ! p = Some (Fulfilled v)"
  by (simp add: resolvePromise_def)

lemma handleAgentEvent_other_run:
  "runId payload \<noteq> Some x \<Longrightarrow> pendingChats (handleAgentEvent payload g) x = pendingChats g x"
  unfolding handleAgentEvent_def Let_def
  by (auto simp: resolvePromise_simps deletePending_def clearTimeout_def split: option.splits)

lemma handleAgentEvent_entry:
  "pendingChats (handleAgentEvent payload g) x = Some c \<Longrightarrow>
   \<exists>c0. pendingChats g x = Some c0 \<and> pc_promise c = pc_promise c0 \<and> pc_timeout c = pc_timeout c0"
  unfolding handleAgentEvent_def Let_def
  by (auto simp: resolvePromise_simps deletePending_def clearTimeout_def
      split: option.splits if_splits)

lemma handleAgentEvent_lengths:
  "length (timers (handleAgentEvent payload g)) = length (timers g)"
  "length (promises (handleAgentEvent payload g)) = length (promises g)"
  unfolding handleAgentEvent_def Let_def
  by (auto simp: resolvePromise_simps deletePending_def clearTimeout_def split: option.splits)

lemma handleAgentEvent_timer:
  assumes "\<And>x c. runId payload = Some x \<Longrightarrow> pendingChats g x = Some c \<Longrightarrow> completes x payload
             \<Longrightarrow> pc_timeout c \<noteq> t"
  shows "timers (handleAgentEvent payload g) ! t = timers g ! t"
proof (cases "runId payload")
  case None
  then show ?thesis by (simp add: handleAgentEvent_def)
next
  case (Some x)
  show ?thesis
  proof (cases "pendingChats g x")
    case None
    with Some show ?thesis by (simp add: handleAgentEvent_def)
  next
    case (Some c)
    show ?thesis
    proof (cases "completes x payload")
      case True
      from assms [OF \<open>runId payload = Some x\<close> Some True] have "pc_timeout c \<noteq> t" .
      with Some \<open>runId payload = Some x\<close> show ?thesis
        unfolding handleAgentEvent_def Let_def
        by (simp add: resolvePromise_simps deletePending_def clearTimeout_def)
    next
      case False
      with Some \<open>runId payload = Some x\<close> show ?thesis
        unfolding handleAgentEvent_def Let_def completes_def
        by (auto simp: resolvePromise_simps deletePending_def clearTimeout_def)
    qed
  qed
qed

lemma handleAgentEvent_promise:
  assumes "\<And>x c. runId payload = Some x \<Longrightarrow> pendingChats g x = Some c \<Longrightarrow> completes x payload
             \<Longrightarrow> pc_promise c \<noteq> p"
  shows "promises (handleAgentEvent payload g) ! p = promises g ! p"
proof (cases "runId payload")
  case None
  then show ?thesis by (simp add: handleAgentEvent_def)
next
  case (Some x)
  show ?thesis
  proof (cases "pendingChats g x")
    case None
    with Some show ?thesis by (simp add: handleAgentEvent_def)
  next
    case (Some c)
    show ?thesis
    proof (cases "completes x payload")
      case True
      from assms [OF \<open>runId payload = Some x\<close> Some True] have "pc_promise c \<noteq> p" .
      then have "p \<noteq> pc_promise c" by simp
      with Some \<open>runId payload = Some x\<close> show ?thesis
        unfolding handleAgentEvent_def Let_def
        by (simp add: resolvePromise_other deletePending_def clearTimeout_def)
    next
      case False
      with Some \<open>runId payload = Some x\<close> show ?thesis
        unfolding handleAgentEvent_def Let_def completes_def
        by (auto simp: resolvePromise_simps deletePending_def clearTimeout_def)
    qed
  qed
qed

lemma handleAgentEvent_keeps_entry:
  assumes "pendingChats g r = Some pc" and "\<not> completes r payload"
  shows "\<exists>c. pendingChats (handleAgentEvent payload g) r = Some c
             \<and> pc_promise c = pc_promise pc \<and> pc_timeout c = pc_timeout pc"
proof (cases "runId payload = Some r")
  case True
  with assms show ?thesis
    unfolding handleAgentEvent_def Let_def completes_def
    by (auto simp: resolvePromise_simps deletePending_def clearTimeout_def)
next
  case False
  with assms show ?thesis by (simp add: handleAgentEvent_other_run)
qed

lemma handleAgentEvent_awaiting:
  assumes "awaiting r p t g" and "\<not> completes r payload"
  shows "awaiting r p t (handleAgentEvent payload g)"
proof -
  let ?g = "handleAgentEvent payload g"
  from assms(1) obtain pc tm where
    ent: "pendingChats g r = Some pc" "pc_promise pc = p" "pc_timeout pc = t"
    and tm: "t < length (timers g)" "timers g ! t = Some tm" "tm_runId tm = r" "tm_promise tm = p"
    and pr: "p < length (promises g)" "promises g ! p = None"
    and others: "\<And>r' pc'. r' \<noteq> r \<Longrightarrow> pendingChats g r' = Some pc' \<Longrightarrow>
                   pc_promise pc' \<noteq> p \<and> pc_timeout pc' \<noteq> t"
    unfolding awaiting_def by blast
  have sep: "pc_promise c \<noteq> p \<and> pc_timeout c \<noteq> t"
    if "runId payload = Some x" "pendingChats g x = Some c" "completes x payload" for x c
  proof -
    from that(3) assms(2) have "x \<noteq> r" by auto
    with others that(2) show ?thesis by blast
  qed
  obtain c where c: "pendingChats ?g r = Some c" "pc_promise c = p" "pc_timeout c = t"
    using handleAgentEvent_keeps_entry [OF ent(1) assms(2)] ent by auto
  have t': "timers ?g ! t = Some tm"
    using handleAgentEvent_timer [of payload g t] sep tm by auto
  have p': "promises ?g ! p = None"
    using handleAgentEvent_promise [of payload g p] sep pr by auto
  have o': "pc_promise c' \<noteq> p \<and> pc_timeout c' \<noteq> t"
    if "r' \<noteq> r" "pendingChats ?g r' = Some c'" for r' c'
  proof -
    from handleAgentEvent_entry [OF that(2)] obtain c0 where
      "pendingChats g r' = Some c0" "pc_promise c' = pc_promise c0" "pc_timeout c' = pc_timeout c0"
      by blast
    with others [OF that(1)] show ?thesis by simp
  qed
  show ?thesis
    unfolding awaiting_def
    using c t' p' o' tm pr by (auto simp: handleAgentEvent_lengths)
qed

lemma agentEvents_awaiting:
  "awaiting r p t g \<Longrightarrow> \<forall>payload \<in> set ps. \<not> completes r payload \<Longrightarrow>
   awaiting r p t (agentEvents ps g)"
  unfolding agentEvents_def
  by (induction ps arbitrary: g) (simp_all add: handleAgentEvent_awaiting)

lemma fireTimer_awaiting:
  assumes "awaiting r p t g"
  shows "pendingChats (fireTimer t g) r = None
         \<and> p < length (promises (fireTimer t g))
         \<and> promises (fireTimer t g) ! p = Some (Fulfilled timeoutResponse)"
  using assms unfolding awaiting_def fireTimer_def
  by (auto simp: resolvePromise_simps resolvePromise_pending deletePending_def)

lemma handleAgentEvent_settled:
  assumes "promises g ! p = Some v"
  shows "promises (handleAgentEvent payload g) ! p = Some v"
  using assms unfolding handleAgentEvent_def Let_def
  by (auto simp: resolvePromise_settled deletePending_def clearTimeout_def
      split: option.splits)

lemma agentEvents_settled:
  "promises g ! p = Some v \<Longrightarrow> promises (agentEvents ps g) ! p = Some v"
  unfolding agentEvents_def
  by (induction ps arbitrary: g) (simp_all add: handleAgentEvent_settled)

lemma handleAgentEvent_unknown_run:
  "pendingChats g r = None \<Longrightarrow> runId payload = Some r \<Longrightarrow> handleAgentEvent payload g = g"
  by (simp add: handleAgentEvent_def)

lemma handlesInRange_new: "handlesInRange newGatewayClient"
  by (simp add: handlesInRange_def newGatewayClient_def)

lemma handlesInRange_awaitChat:
  assumes "handlesInRange g"
  shows "handlesInRange (snd (awaitChat r ms g))"
proof -
  have "pc_promise pc < Suc (length (promises g)) \<and> pc_timeout pc < Suc (length (timers g))"
    if "pendingChats g r' = Some pc" for r' pc
    using handlesInRangeD [OF assms that] by simp
  then show ?thesis
    unfolding handlesInRange_def awaitChat_def Let_def by simp
qed

lemma handlesInRange_chat:
  "handlesInRange g \<Longrightarrow> handlesInRange (snd (chat opts response g))"
  by (auto simp: chat_def Let_def split: sum.splits prod.splits)
     (metis handlesInRange_awaitChat snd_conv)

lemma handlesInRange_handleAgentEvent:
  assumes "handlesInRange g"
  shows "handlesInRange (handleAgentEvent payload g)"
  unfolding handlesInRange_def
proof (intro allI impI)
  fix r pc
  assume "pendingChats (handleAgentEvent payload g) r = Some pc"
  from handleAgentEvent_entry [OF this] obtain c0 where
    "pendingChats g r = Some c0" "pc_promise pc = pc_promise c0" "pc_timeout pc = pc_timeout c0"
    by blast
  with handlesInRangeD [OF assms, of r c0]
  show "pc_promise pc < length (promises (handleAgentEvent payload g))
        \<and> pc_timeout pc < length (timers (handleAgentEvent payload g))"
    by (simp add: handleAgentEvent_lengths)
qed

lemma handlesInRange_fireTimer:
  assumes "handlesInRange g"
  shows "handlesInRange (fireTimer t g)"
proof -
  have "pc_promise pc < length (promises g) \<and> pc_timeout pc < length (timers g)"
    if "pendingChats g r' = Some pc" for r' pc
    using handlesInRangeD [OF assms that] .
  then show ?thesis
    unfolding handlesInRange_def fireTimer_def
    by (auto simp: resolvePromise_simps deletePending_def split: option.splits if_splits)
qed

text \<open>
  C4. Let \<open>chat\<close> obtain the run id \<open>r\<close> and wait on its promise. If the agent events
  that arrive before the timer comes due hold no lifecycle completion for \<open>r\<close>, the
  promise is still pending then, and the timer's callback deletes the entry of \<open>r\<close>
  from \<open>pendingChats\<close> and then fulfils the promise (it does not reject it) with the
  fixed text and \<open>aborted: true\<close>. Whatever agent events arrive afterwards, the promise
  keeps that value, and an event for \<open>r\<close> leaves the whole state as it is.
\<close>

theorem chat_timeout_resolves:
  assumes "handlesInRange g" and "r \<noteq> []"
    and "\<forall>payload \<in> set early. \<not> completes r payload"
  shows "\<exists>g1. chat opts (Inr (Some r)) g = (Inr (length (promises g)), g1)
           \<and> promises (agentEvents early g1) ! length (promises g) = None
           \<and> promises (fireTimer (length (timers g)) (agentEvents early g1)) ! length (promises g)
               = Some (Fulfilled \<lparr>cr_text = ''Sorry, I took too long. Can you try again?'',
                                  cr_error = None, cr_aborted = Some True\<rparr>)
           \<and> pendingChats (fireTimer (length (timers g)) (agentEvents early g1)) r = None
           \<and> (\<forall>late. promises (agentEvents late
                          (fireTimer (length (timers g)) (agentEvents early g1))) ! length (promises g)
                 = Some (Fulfilled \<lparr>cr_text = ''Sorry, I took too long. Can you try again?'',
                                    cr_error = None, cr_aborted = Some True\<rparr>))
           \<and> (\<forall>payload. runId payload = Some r \<longrightarrow>
                 handleAgentEvent payload (fireTimer (length (timers g)) (agentEvents early g1))
                   = fireTimer (length (timers g)) (agentEvents early g1))"
proof -
  let ?p = "length (promises g)" and ?t = "length (timers g)"
  obtain ms where ms: "chat opts (Inr (Some r)) g = (Inr ?p, snd (awaitChat r ms g))"
    using assms(2) by (simp add: chat_def orElse_def awaitChat_def Let_def)
  let ?g1 = "snd (awaitChat r ms g)"
  let ?g2 = "agentEvents early ?g1"
  let ?g3 = "fireTimer ?t ?g2"
  have a1: "awaiting r ?p ?t ?g1"
    by (rule awaitChat_awaiting [OF assms(1)])
  have a2: "awaiting r ?p ?t ?g2"
    by (rule agentEvents_awaiting [OF a1 assms(3)])
  then have pending: "promises ?g2 ! ?p = None"
    unfolding awaiting_def by blast
  from fireTimer_awaiting [OF a2]
  have gone: "pendingChats ?g3 r = None"
    and fulfilled: "promises ?g3 ! ?p = Some (Fulfilled timeoutResponse)"
    by simp_all
  have late: "promises (agentEvents late ?g3) ! ?p = Some (Fulfilled timeoutResponse)" for late
    by (rule agentEvents_settled [OF fulfilled])
  have same: "handleAgentEvent payload ?g3 = ?g3" if "runId payload = Some r" for payload
    by (rule handleAgentEvent_unknown_run [OF gone that])
  from ms pending fulfilled gone late same show ?thesis
    unfolding timeoutResponse_def by blast
qed

theorem chat_timeout_resolves_witness:
  "promises
     (agentEvents
        [\<lparr>runId = Some ''run-1'', stream = Some ''lifecycle'', data_text = None,
          data_phase = Some ''end''\<rparr>]
        (fireTimer 0
           (agentEvents
              [\<lparr>runId = Some ''run-1'', stream = Some ''assistant'', data_text = Some ''Let me'',
                data_phase = None\<rparr>]
              (snd (chat \<lparr>o_sessionKey = ''retell:+15551234567'', o_message = ''Hi'',
                          o_systemContext = None, o_timeoutMs = Some 30000\<rparr>
                     (Inr (Some ''run-1'')) newGatewayClient))))) ! 0
   = Some (Fulfilled \<lparr>cr_text = ''Sorry, I took too long. Can you try again?'',
                      cr_error = None, cr_aborted = Some True\<rparr>)"
  using chat_timeout_resolves [OF handlesInRange_new, of "''run-1''"
      "[\<lparr>runId = Some ''run-1'', stream = Some ''assistant'', data_text = Some ''Let me'',
         data_phase = None\<rparr>]"
      "\<lparr>o_sessionKey = ''retell:+15551234567'', o_message = ''Hi'',
        o_systemContext = None, o_timeoutMs = Some 30000\<rparr>"]
  by (auto simp: completes_def newGatewayClient_def)

lemma trim_reply: "trim '' Hello there '' = ''Hello there''"
  by (simp add: trim_def whiteSpace_def stripLeading.simps startsWith_def)

text \<open>White space outside ASCII is trimmed too (U+00A0 in front, U+2028 behind).\<close>

lemma trim_unicode_space:
  "trim ([CHR 0xC2, CHR 0xA0, CHR 0x0A] @ ''Hi'' @ [CHR 0xE2, CHR 0x80, CHR 0xA8, CHR 0x20]) = ''Hi''"
  by (simp add: trim_def whiteSpace_def stripLeading.simps startsWith_def)

text \<open>
  For contrast: a completion that arrives first settles the promise with the trimmed
  text, and the timer, cleared by then, changes nothing.
\<close>

lemma completion_before_timeout:
  "promises
     (fireTimer 0
        (agentEvents
           [\<lparr>runId = Some ''run-1'', stream = Some ''assistant'', data_text = Some '' Hello there '',
             data_phase = None\<rparr>,
            \<lparr>runId = Some ''run-1'', stream = Some ''lifecycle'', data_text = None,
             data_phase = Some ''end''\<rparr>]
           (snd (chat \<lparr>o_sessionKey = ''retell:+15551234567'', o_message = ''Hi'',
                       o_systemContext = None, o_timeoutMs = None\<rparr>
                  (Inr (Some ''run-1'')) newGatewayClient)))) ! 0
   = Some (Fulfilled \<lparr>cr_text = ''Hello there'', cr_error = None, cr_aborted = None\<rparr>)"
  by (simp add: chat_def awaitChat_def orElse_def newGatewayClient_def agentEvents_def
      handleAgentEvent_def fireTimer_def resolvePromise_def deletePending_def clearTimeout_def
      completion_def isFinalPhase_def trim_reply Let_def)

end
